theory Spec2Isabelle
  imports Main "HOL-Library.Multiset"
begin

section \<open>JavaScript primitives used by the video manager\<close>

text \<open>
  The remainder operator \<^verbatim>\<open>%\<close> of JavaScript truncates towards zero: the result has the
  sign of the dividend, so \<^verbatim>\<open>-1 % 3\<close> is \<^verbatim>\<open>-1\<close>. With a zero divisor JavaScript yields
  NaN; the only zero divisor in this development is the length of an empty playlist, and
  \<^verbatim>\<open>playVideo\<close> rejects on an empty playlist before it reads its index, so the value
  chosen here for a zero divisor (the dividend) is never looked at.
\<close>

definition js_rem :: "int \<Rightarrow> int \<Rightarrow> int" where
  "js_rem a b = sgn a * (\<bar>a\<bar> mod \<bar>b\<bar>)"

text \<open>
  A URL as a JavaScript value: \<open>Some u\<close> is the string \<open>u\<close>, \<open>None\<close> is
  \<^verbatim>\<open>undefined\<close>, which is what indexing an array out of range returns.
\<close>

type_synonym url = "string option"

definition at :: "string list \<Rightarrow> int \<Rightarrow> url" where
  "at xs i = (if 0 \<le> i \<and> i < int (length xs) then Some (xs ! nat i) else None)"

text \<open>\<^verbatim>\<open>Array.prototype.indexOf\<close>: the first position of the value, \<open>-1\<close> when absent.\<close>

fun indexOf_from :: "string list \<Rightarrow> string \<Rightarrow> int \<Rightarrow> int" where
  "indexOf_from [] u k = -1"
| "indexOf_from (x # xs) u k = (if x = u then k else indexOf_from xs u (k + 1))"

fun indexOf :: "string list \<Rightarrow> url \<Rightarrow> int" where
  "indexOf xs None = -1"
| "indexOf xs (Some u) = indexOf_from xs u 0"

text \<open>
  \<^verbatim>\<open>String.prototype.trim\<close> on the ASCII range: tab, line feed, vertical tab, form feed,
  carriage return and space are white space. \<open>blank u\<close> is \<^verbatim>\<open>!u.trim()\<close>.
\<close>

definition js_whitespace :: "char \<Rightarrow> bool" where
  "js_whitespace c =
     (c = CHR 0x09 \<or> c = CHR 0x0A \<or> c = CHR 0x0B \<or> c = CHR 0x0C \<or> c = CHR 0x0D \<or> c = CHR 0x20)"

definition blank :: "string \<Rightarrow> bool" where
  "blank u = list_all js_whitespace u"

section \<open>ArrayUtils.shuffle\<close>

text \<open>
  \<^verbatim>\<open>
  shuffle(array) {
    const shuffled = [...array];
    for (let i = shuffled.length - 1; i > 0; i--) {
      const j = Math.floor(Math.random() * (i + 1));
      [shuffled[i], shuffled[j]] = [shuffled[j], shuffled[i]];
    }
    return shuffled;
  }
  \<close>
  The random source is a parameter: \<open>rnd i\<close> is the value that
  \<^verbatim>\<open>Math.floor(Math.random() * (i + 1))\<close> takes in the iteration with loop index \<open>i\<close>.
  \<^verbatim>\<open>Math.random()\<close> lies in \<open>[0, 1)\<close>, so \<open>rnd i \<le> i\<close>.
\<close>

definition swap :: "nat \<Rightarrow> nat \<Rightarrow> 'a list \<Rightarrow> 'a list" where
  "swap i j xs = xs[i := xs ! j, j := xs ! i]"

fun shuffle_loop :: "(nat \<Rightarrow> nat) \<Rightarrow> nat \<Rightarrow> 'a list \<Rightarrow> 'a list" where
  "shuffle_loop rnd 0 shuffled = shuffled"
| "shuffle_loop rnd (Suc i) shuffled = shuffle_loop rnd i (swap (Suc i) (rnd (Suc i)) shuffled)"

definition shuffle :: "(nat \<Rightarrow> nat) \<Rightarrow> 'a list \<Rightarrow> 'a list" where
  "shuffle rnd array = shuffle_loop rnd (length array - 1) array"

section \<open>State of the video manager\<close>

text \<open>
  The two \<^verbatim>\<open>video\<close> elements of the page. The manager never copies or moves them; it
  only relabels which one is active.
\<close>

datatype video_element = VideoA | VideoB

record config =
  preloadBufferSize :: nat
  maxRetries :: nat
  retryDelay :: nat
  loadTimeout :: nat
  crossfadeDuration :: nat

text \<open>Events the manager hands to \<^verbatim>\<open>emit\<close>, with the element they carry.\<close>

datatype vm_event = VideoError video_element | PlaybackError

text \<open>
  The fields of \<^verbatim>\<open>VideoManager\<close>. \<open>preloadedVideos\<close> is the \<^verbatim>\<open>Map\<close> from URL to a
  detached element, in insertion order, each element shown by its \<^verbatim>\<open>readyState\<close>;
  \<open>loadingPromises\<close> is shown by its keys. \<open>pendingRetries\<close> holds the delays of the
  \<^verbatim>\<open>setTimeout\<close> callbacks that \<^verbatim>\<open>handleVideoError\<close> has scheduled and that have not
  fired yet, oldest first; \<open>emitted\<close> is the sequence of events passed to \<^verbatim>\<open>emit\<close>.
  The record describes a manager on which \<^verbatim>\<open>initialize\<close> has run, so both element
  references are set.
\<close>

record vm_state =
  config :: config
  videoUrls :: "string list"
  currentIndex :: int
  activeVideoElement :: video_element
  inactiveVideoElement :: video_element
  isTransitioning :: bool
  preloadedVideos :: "(url \<times> nat) list"
  loadingPromises :: "url list"
  errorCount :: nat
  pendingRetries :: "nat list"
  emitted :: "vm_event list"

text \<open>\<^verbatim>\<open>this.maxErrors = 10\<close>: set by the constructor, not configurable, never reassigned.\<close>

definition maxErrors :: nat where
  "maxErrors = 10"

text \<open>The defaults of the constructor; \<open>isMobile\<close> is \<^verbatim>\<open>DeviceUtils.isMobile()\<close>.\<close>

definition default_config :: "bool \<Rightarrow> config" where
  "default_config isMobile =
     \<lparr> preloadBufferSize = (if isMobile then 1 else 3), maxRetries = 3, retryDelay = 1000,
       loadTimeout = 30000, crossfadeDuration = 1500 \<rparr>"

text \<open>
  The field values the constructor assigns, with the element references as
  \<^verbatim>\<open>initialize(videoA, videoB, _)\<close> assigns them before it calls \<^verbatim>\<open>setVideoUrls\<close>.
\<close>

definition constructor :: "config \<Rightarrow> video_element \<Rightarrow> video_element \<Rightarrow> vm_state" where
  "constructor cfg videoA videoB =
     \<lparr> config = cfg, videoUrls = [], currentIndex = -1,
       activeVideoElement = videoA, inactiveVideoElement = videoB,
       isTransitioning = False, preloadedVideos = [], loadingPromises = [],
       errorCount = 0, pendingRetries = [], emitted = [] \<rparr>"

section \<open>setVideoUrls and initialize\<close>

datatype error =
    InvalidVideoUrls
  | NoValidVideoUrls
  | CannotPlay
  | PlaybackFailed

text \<open>
  \<^verbatim>\<open>
  setVideoUrls(urls) {
    if (!Array.isArray(urls) || urls.length === 0) {
      throw ErrorUtils.createError('Invalid video URLs provided', { urls });
    }
    const validUrls = urls.filter(url => {
      if (typeof url !== 'string' || !url.trim()) return false;
      try { new URL(url); return true; }
      catch { console.warn('Invalid URL detected:', url); return false; }
    });
    if (validUrls.length === 0) {
      throw ErrorUtils.createError('No valid video URLs found');
    }
    this.videoUrls = ArrayUtils.shuffle(validUrls);
  }
  \<close>
  The input is an array of strings. The URL parser of the browser is a parameter:
  \<open>parses u\<close> holds when \<^verbatim>\<open>new URL(u)\<close> does not throw.
\<close>

definition acceptsUrl :: "(string \<Rightarrow> bool) \<Rightarrow> string \<Rightarrow> bool" where
  "acceptsUrl parses u = (if blank u then False else parses u)"

definition setVideoUrls ::
  "(string \<Rightarrow> bool) \<Rightarrow> (nat \<Rightarrow> nat) \<Rightarrow> vm_state \<Rightarrow> string list \<Rightarrow> error + vm_state" where
  "setVideoUrls parses rnd s urls =
     (if urls = [] then Inl InvalidVideoUrls
      else let validUrls = filter (acceptsUrl parses) urls in
        if validUrls = [] then Inl NoValidVideoUrls
        else Inr (s\<lparr>videoUrls := shuffle rnd validUrls\<rparr>))"

definition initialize ::
  "(string \<Rightarrow> bool) \<Rightarrow> (nat \<Rightarrow> nat) \<Rightarrow> vm_state \<Rightarrow> video_element \<Rightarrow> video_element \<Rightarrow>
   string list \<Rightarrow> error + vm_state" where
  "initialize parses rnd s videoA videoB videoUrls_in =
     setVideoUrls parses rnd
       (s\<lparr>activeVideoElement := videoA, inactiveVideoElement := videoB\<rparr>) videoUrls_in"

section \<open>Playback: playVideo, crossfade, error handling\<close>

text \<open>
  The methods below are \<^verbatim>\<open>async\<close>. JavaScript runs each of them without interruption up
  to an \<^verbatim>\<open>await\<close>, and resumes it later when the awaited promise settles. Each method is
  therefore given by the part that runs at the call (suffix \<open>_begin\<close>) and the part that
  runs when the awaited promise has settled (suffix \<open>_resume\<close>); the method name itself is
  the composition, the call run to its settlement. What the environment decides is a
  parameter: how the load into the inactive element ends (\<^verbatim>\<open>canplay\<close>, an \<^verbatim>\<open>error\<close>
  event, or the timeout of \<^verbatim>\<open>loadNewVideo\<close> / \<^verbatim>\<open>usePreloadedVideo\<close>), and what
  \<^verbatim>\<open>play()\<close> on the element does (returns a promise that fulfils, one that rejects, or
  throws). Attributes of the DOM elements (source, opacity, paused) and the performance
  metrics are outside the model.
\<close>

datatype load_result = CanPlay | LoadErrorEvent | LoadTimeout

datatype play_result = PlayStarted | PlayRejected | PlayThrew

text \<open>
  How a call of \<^verbatim>\<open>playVideo\<close> ends: \<open>Rejected\<close> is the rejected promise of the guard;
  \<open>Played\<close> and \<open>Failed\<close> both resolve the promise, the first through the \<^verbatim>\<open>try\<close>
  block, the second through \<^verbatim>\<open>catch\<close>.
\<close>

datatype play_outcome = Rejected | Played | Failed

definition emit_event :: "vm_event \<Rightarrow> vm_state \<Rightarrow> vm_state" where
  "emit_event e s = s\<lparr>emitted := emitted s @ [e]\<rparr>"

text \<open>
  \<^verbatim>\<open>
  async playVideo(index) {
    if (this.isTransitioning || this.videoUrls.length === 0) {
      return Promise.reject(new Error('Cannot play video: transitioning or no URLs'));
    }
    try {
      this.isTransitioning = true;
      this.currentIndex = index % this.videoUrls.length;
      const videoUrl = this.videoUrls[this.currentIndex];
      const preloadedVideo = this.preloadedVideos.get(videoUrl);
      if (preloadedVideo && preloadedVideo.readyState >= 2) {
        await this.usePreloadedVideo(preloadedVideo);
      } else {
        await this.loadNewVideo(videoUrl);
      }
      await this.crossfade();
      this.updatePreloadQueue();
    } catch (error) {
      this.handleVideoError(this.inactiveVideoElement, error);
    } finally {
      this.isTransitioning = false;
    }
  }
  \<close>
\<close>

definition playVideo_begin :: "vm_state \<Rightarrow> int \<Rightarrow> error + vm_state" where
  "playVideo_begin s index =
     (if isTransitioning s \<or> videoUrls s = [] then Inl CannotPlay
      else Inr (s\<lparr>isTransitioning := True,
                  currentIndex := js_rem index (int (length (videoUrls s)))\<rparr>))"

definition nextIndex :: "vm_state \<Rightarrow> int" where
  "nextIndex s = js_rem (currentIndex s + 1) (int (length (videoUrls s)))"

definition prevIndex :: "vm_state \<Rightarrow> int" where
  "prevIndex s =
     js_rem (currentIndex s - 1 + int (length (videoUrls s))) (int (length (videoUrls s)))"

text \<open>
  \<^verbatim>\<open>
  async handleVideoError(video, error) {
    this.errorCount++;
    this.emit('videoError', { video, error });
    if (this.errorCount > this.maxErrors) {
      await this.playNext();
    } else {
      setTimeout(() => {
        if (!this.isTransitioning) { this.retryCurrentVideo(); }
      }, this.config.retryDelay);
    }
  }
  async playNext() {
    const nextIndex = (this.currentIndex + 1) % this.videoUrls.length;
    await this.playVideo(nextIndex);
  }
  \<close>
  \<open>handleVideoError\<close> is what runs at the call: up to and including the call of
  \<^verbatim>\<open>playNext()\<close>, which itself runs up to the first \<^verbatim>\<open>await\<close> inside \<^verbatim>\<open>playVideo\<close>, or
  up to \<^verbatim>\<open>setTimeout\<close>. When the guard of \<^verbatim>\<open>playVideo\<close> rejects, the rejection ends
  \<^verbatim>\<open>handleVideoError\<close> with nothing else done.
\<close>

definition handleVideoError :: "video_element \<Rightarrow> vm_state \<Rightarrow> vm_state" where
  "handleVideoError video s =
     (let s1 = s\<lparr>errorCount := errorCount s + 1\<rparr>;
          s2 = emit_event (VideoError video) s1
      in if errorCount s2 > maxErrors
         then (case playVideo_begin s2 (nextIndex s2) of Inl e \<Rightarrow> s2 | Inr s3 \<Rightarrow> s3)
         else s2\<lparr>pendingRetries := pendingRetries s2 @ [retryDelay (config s2)]\<rparr>)"

text \<open>
  \<^verbatim>\<open>
  cleanupPreloadQueue() {
    const currentUrl = this.videoUrls[this.currentIndex];
    for (const [url, video] of this.preloadedVideos.entries()) {
      const videoIndex = this.videoUrls.indexOf(url);
      const distance = (videoIndex - this.currentIndex + this.videoUrls.length)
                       % this.videoUrls.length;
      if (distance > this.config.preloadBufferSize && url !== currentUrl) {
        this.preloadedVideos.delete(url);
      }
    }
  }
  \<close>
  With an empty playlist the distance is NaN and the comparison is false.
\<close>

definition distance :: "vm_state \<Rightarrow> url \<Rightarrow> int" where
  "distance s url =
     js_rem (indexOf (videoUrls s) url - currentIndex s + int (length (videoUrls s)))
            (int (length (videoUrls s)))"

definition evicts :: "vm_state \<Rightarrow> url \<Rightarrow> bool" where
  "evicts s url =
     (if videoUrls s = [] then False
      else if distance s url > int (preloadBufferSize (config s))
              \<and> url \<noteq> at (videoUrls s) (currentIndex s) then True
      else False)"

definition cleanupPreloadQueue :: "vm_state \<Rightarrow> vm_state" where
  "cleanupPreloadQueue s =
     s\<lparr>preloadedVideos := filter (\<lambda>(url, video). \<not> evicts s url) (preloadedVideos s)\<rparr>"

text \<open>
  \<^verbatim>\<open>preloadVideo(url)\<close> up to its \<^verbatim>\<open>await\<close> registers the URL in \<^verbatim>\<open>loadingPromises\<close>;
  when the load has settled it removes the URL again and, on \<^verbatim>\<open>canplaythrough\<close>,
  stores the element in \<^verbatim>\<open>preloadedVideos\<close> (\<^verbatim>\<open>Map.set\<close> keeps the position of a key
  that is already there).
\<close>

definition preloadVideo_begin :: "url \<Rightarrow> vm_state \<Rightarrow> vm_state" where
  "preloadVideo_begin u s =
     (if u \<in> set (loadingPromises s) then s
      else s\<lparr>loadingPromises := loadingPromises s @ [u]\<rparr>)"

fun map_set :: "'k \<Rightarrow> 'v \<Rightarrow> ('k \<times> 'v) list \<Rightarrow> ('k \<times> 'v) list" where
  "map_set k v [] = [(k, v)]"
| "map_set k v ((k', v') # m) = (if k' = k then (k, v) # m else (k', v') # map_set k v m)"

definition preloadVideo_resume :: "url \<Rightarrow> nat option \<Rightarrow> vm_state \<Rightarrow> vm_state" where
  "preloadVideo_resume u loaded s =
     (case loaded of
        Some readyState \<Rightarrow>
          s\<lparr>preloadedVideos := map_set u readyState (preloadedVideos s),
            loadingPromises := removeAll u (loadingPromises s)\<rparr>
      | None \<Rightarrow> s\<lparr>loadingPromises := removeAll u (loadingPromises s)\<rparr>)"

text \<open>
  \<^verbatim>\<open>
  updatePreloadQueue() {
    this.cleanupPreloadQueue();
    for (let i = 1; i <= this.config.preloadBufferSize; i++) {
      const nextIndex = (this.currentIndex + i) % this.videoUrls.length;
      const nextUrl = this.videoUrls[nextIndex];
      if (!this.preloadedVideos.has(nextUrl) && !this.loadingPromises.has(nextUrl)) {
        this.preloadVideo(nextUrl);
      }
    }
  }
  \<close>
\<close>

definition preload_step :: "nat \<Rightarrow> vm_state \<Rightarrow> vm_state" where
  "preload_step i s =
     (let nextUrl = at (videoUrls s) (js_rem (currentIndex s + int i) (int (length (videoUrls s))))
      in if map_of (preloadedVideos s) nextUrl = None \<and> nextUrl \<notin> set (loadingPromises s)
         then preloadVideo_begin nextUrl s else s)"

definition updatePreloadQueue :: "vm_state \<Rightarrow> vm_state" where
  "updatePreloadQueue s =
     fold preload_step [1 ..< Suc (preloadBufferSize (config s))] (cleanupPreloadQueue s)"

text \<open>
  \<^verbatim>\<open>
  async crossfade() {
    return new Promise((resolve) => {
      const playPromise = this.inactiveVideoElement.play();
      if (playPromise) {
        playPromise.catch(error => { this.emit('playbackError', { error }); });
      }
      setTimeout(() => {
        [this.activeVideoElement, this.inactiveVideoElement] =
        [this.inactiveVideoElement, this.activeVideoElement];
        this.inactiveVideoElement.pause();
        this.setupActiveVideoListeners();
        resolve();
      }, this.config.crossfadeDuration);
    });
  }
  \<close>
  \<open>crossfade_complete\<close> is the timer callback. An exception thrown by \<^verbatim>\<open>play()\<close> inside
  the promise executor rejects the promise before the timer is set.
\<close>

definition crossfade_complete :: "vm_state \<Rightarrow> vm_state" where
  "crossfade_complete s =
     s\<lparr>activeVideoElement := inactiveVideoElement s,
       inactiveVideoElement := activeVideoElement s\<rparr>"

definition crossfade :: "play_result \<Rightarrow> vm_state \<Rightarrow> error + vm_state" where
  "crossfade play s =
     (case play of
        PlayThrew \<Rightarrow> Inl PlaybackFailed
      | PlayRejected \<Rightarrow> Inr (crossfade_complete (emit_event PlaybackError s))
      | PlayStarted \<Rightarrow> Inr (crossfade_complete s))"

definition playVideo_resume :: "load_result \<Rightarrow> play_result \<Rightarrow> vm_state \<Rightarrow> play_outcome \<times> vm_state" where
  "playVideo_resume load play s =
     (let (outcome, s1) =
        (if load = CanPlay then
           (case crossfade play s of
              Inr s2 \<Rightarrow> (Played, updatePreloadQueue s2)
            | Inl e \<Rightarrow> (Failed, handleVideoError (inactiveVideoElement s) s))
         else (Failed, handleVideoError (inactiveVideoElement s) s))
      in (outcome, s1\<lparr>isTransitioning := False\<rparr>))"

definition playVideo :: "load_result \<Rightarrow> play_result \<Rightarrow> vm_state \<Rightarrow> int \<Rightarrow> play_outcome \<times> vm_state" where
  "playVideo load play s index =
     (case playVideo_begin s index of
        Inl e \<Rightarrow> (Rejected, s)
      | Inr s1 \<Rightarrow> playVideo_resume load play s1)"

text \<open>
  \<^verbatim>\<open>
  async playNext()     { await this.playVideo((this.currentIndex + 1) % this.videoUrls.length); }
  async playPrevious() { await this.playVideo((this.currentIndex - 1 + this.videoUrls.length)
                                               % this.videoUrls.length); }
  async playRandom()   { await this.playVideo(Math.floor(Math.random() * this.videoUrls.length)); }
  async retryCurrentVideo() {
    try { await this.playVideo(this.currentIndex); }
    catch (error) { await this.playNext(); }
  }
  \<close>
  \<open>playRandom\<close> takes the drawn index as a parameter. \<open>retryTimer_fires\<close> is the callback
  that \<^verbatim>\<open>handleVideoError\<close> passes to \<^verbatim>\<open>setTimeout\<close>, run for the oldest pending entry.
\<close>

definition playNext :: "load_result \<Rightarrow> play_result \<Rightarrow> vm_state \<Rightarrow> play_outcome \<times> vm_state" where
  "playNext load play s = playVideo load play s (nextIndex s)"

definition playPrevious :: "load_result \<Rightarrow> play_result \<Rightarrow> vm_state \<Rightarrow> play_outcome \<times> vm_state" where
  "playPrevious load play s = playVideo load play s (prevIndex s)"

definition playRandom :: "nat \<Rightarrow> load_result \<Rightarrow> play_result \<Rightarrow> vm_state \<Rightarrow> play_outcome \<times> vm_state" where
  "playRandom randomIndex load play s = playVideo load play s (int randomIndex)"

definition retryCurrentVideo :: "load_result \<Rightarrow> play_result \<Rightarrow> vm_state \<Rightarrow> vm_state" where
  "retryCurrentVideo load play s =
     (case playVideo load play s (currentIndex s) of
        (Rejected, s1) \<Rightarrow> snd (playNext load play s1)
      | (outcome, s1) \<Rightarrow> s1)"

definition retryTimer_fires :: "load_result \<Rightarrow> play_result \<Rightarrow> vm_state \<Rightarrow> vm_state" where
  "retryTimer_fires load play s =
     (case pendingRetries s of
        [] \<Rightarrow> s
      | delay # rest \<Rightarrow>
          (let s1 = s\<lparr>pendingRetries := rest\<rparr>
           in if \<not> isTransitioning s1 then retryCurrentVideo load play s1 else s1))"

text \<open>
  \<^verbatim>\<open>destroy()\<close> clears both maps; what it does to the listener registrations is
  \<open>clear_eventListeners\<close> further down.
\<close>

definition destroy :: "vm_state \<Rightarrow> vm_state" where
  "destroy s = s\<lparr>preloadedVideos := [], loadingPromises := []\<rparr>"

section \<open>Event emitter: on, off, emit\<close>

text \<open>
  \<^verbatim>\<open>
  on(event, callback) {
    if (!this.eventListeners.has(event)) { this.eventListeners.set(event, []); }
    this.eventListeners.get(event).push(callback);
  }
  off(event, callback) {
    const listeners = this.eventListeners.get(event);
    if (listeners) {
      const index = listeners.indexOf(callback);
      if (index > -1) { listeners.splice(index, 1); }
    }
  }
  emit(event, data) {
    const listeners = this.eventListeners.get(event);
    if (listeners) {
      listeners.forEach(callback => {
        try { callback(data); }
        catch (error) { console.error('Event listener error:', error); }
      });
    }
  }
  \<close>
  \<^verbatim>\<open>eventListeners\<close> is a \<^verbatim>\<open>Map\<close> from event name to an array of functions, and the
  arrays are objects of their own: \<^verbatim>\<open>on\<close> pushes to the array in place, \<^verbatim>\<open>off\<close> splices
  it in place, and \<^verbatim>\<open>emit\<close> iterates the very array the \<^verbatim>\<open>Map\<close> holds. So the registry
  is a map from event name to a reference, and a store from references to arrays. A
  function is known by its identity, a number (\<^verbatim>\<open>indexOf\<close> compares references); what the
  function does is given by a table from identities to behaviours. A subscriber receives
  the payload, acts on the registry (it can call \<^verbatim>\<open>on\<close>, \<^verbatim>\<open>off\<close> and \<^verbatim>\<open>destroy\<close> of the
  manager that is calling it) and on whatever else it can reach, a value of type \<open>'w\<close>,
  and either returns or throws.
\<close>

type_synonym handler = nat

type_synonym array_ref = nat

record registry =
  eventListeners :: "string \<rightharpoonup> array_ref"
  arrays :: "array_ref \<Rightarrow> handler list"
  fresh :: array_ref






text \<open>\<^verbatim>\<open>this.eventListeners.clear()\<close> in \<^verbatim>\<open>destroy()\<close>: the map is emptied, the arrays stay.\<close>

definition clear_eventListeners :: "registry \<Rightarrow> registry" where
  "clear_eventListeners r = r\<lparr>eventListeners := Map.empty\<rparr>"




section \<open>Example states\<close>

text \<open>
  A desktop manager initialised on three clips, idle, with the first clip playing; the
  same manager on a playlist that lists one clip twice; and a manager in the middle of a
  transition.
\<close>

definition demo_playlist :: "string list" where
  "demo_playlist =
     [''https://cdn.example/a.mp4'', ''https://cdn.example/b.mp4'', ''https://cdn.example/c.mp4'']"

definition demo_state :: vm_state where
  "demo_state =
     (constructor (default_config False) VideoA VideoB)\<lparr>videoUrls := demo_playlist, currentIndex := 0\<rparr>"

definition busy_state :: vm_state where
  "busy_state = demo_state\<lparr>isTransitioning := True\<rparr>"

definition repeat_state :: vm_state where
  "repeat_state =
     (constructor (default_config True) VideoA VideoB)
       \<lparr>videoUrls := [''https://cdn.example/a.mp4'', ''https://cdn.example/a.mp4'',
                      ''https://cdn.example/b.mp4'', ''https://cdn.example/c.mp4'',
                      ''https://cdn.example/d.mp4''],
        currentIndex := 1,
        preloadedVideos := [(Some ''https://cdn.example/a.mp4'', 4)]\<rparr>"

definition same_slots :: "vm_state \<Rightarrow> vm_state \<Rightarrow> bool" where
  "same_slots s s' =
     (activeVideoElement s' = activeVideoElement s \<and> inactiveVideoElement s' = inactiveVideoElement s)"

definition swapped_slots :: "vm_state \<Rightarrow> vm_state \<Rightarrow> bool" where
  "swapped_slots s s' =
     (activeVideoElement s' = inactiveVideoElement s \<and> inactiveVideoElement s' = activeVideoElement s)"

text \<open>
  The wrapped forward distance of a cache entry from the cursor as the specification
  words it, \<open>(entryIndex - currentIndex + length) mod length\<close> with the mathematical
  modulo, the index of an entry being the \<^verbatim>\<open>indexOf\<close> of its URL in the playlist.
\<close>

definition wrapped_forward_distance :: "vm_state \<Rightarrow> url \<Rightarrow> int" where
  "wrapped_forward_distance s u =
     (indexOf (videoUrls s) u - currentIndex s + int (length (videoUrls s)))
       mod int (length (videoUrls s))"

definition window_state :: vm_state where
  "window_state =
     (constructor (default_config True) VideoA VideoB)
       \<lparr>videoUrls := demo_playlist, currentIndex := 0,
        preloadedVideos := [(Some ''https://cdn.example/a.mp4'', 4),
                            (Some ''https://cdn.example/b.mp4'', 4),
                            (Some ''https://cdn.example/c.mp4'', 4)]\<rparr>"

definition parses_https :: "string \<Rightarrow> bool" where
  "parses_https u = (take 8 u = ''https://'')"




lemmas demo_defs =
  demo_state_def demo_playlist_def busy_state_def repeat_state_def window_state_def
  constructor_def default_config_def

lemmas playback_defs =
  playVideo_def playVideo_begin_def playVideo_resume_def crossfade_def crossfade_complete_def
  updatePreloadQueue_def cleanupPreloadQueue_def preload_step_def preloadVideo_begin_def
  handleVideoError_def emit_event_def nextIndex_def prevIndex_def maxErrors_def
  evicts_def distance_def js_rem_def at_def


section \<open>Auxiliary facts\<close>

lemma js_rem_nonneg: "0 \<le> a \<Longrightarrow> js_rem a b = a mod \<bar>b\<bar>"
  by (cases "a = 0") (simp_all add: js_rem_def)

lemma preload_step_shape: "\<exists>lp. preload_step i s = s\<lparr>loadingPromises := lp\<rparr>"
proof (cases "preload_step i s = s")
  case True
  then have "preload_step i s = s\<lparr>loadingPromises := loadingPromises s\<rparr>" by simp
  then show ?thesis by blast
next
  case False
  then show ?thesis
    by (auto simp: preload_step_def preloadVideo_begin_def Let_def split: if_splits)
qed

lemma fold_preload_step_shape: "\<exists>lp. fold preload_step is s = s\<lparr>loadingPromises := lp\<rparr>"
proof (induction "is" arbitrary: s)
  case Nil
  have "fold preload_step [] s = s\<lparr>loadingPromises := loadingPromises s\<rparr>" by simp
  then show ?case by blast
next
  case (Cons i "is")
  obtain lp where a: "preload_step i s = s\<lparr>loadingPromises := lp\<rparr>"
    using preload_step_shape by blast
  obtain lp' where b:
    "fold preload_step is (s\<lparr>loadingPromises := lp\<rparr>) =
       s\<lparr>loadingPromises := lp\<rparr>\<lparr>loadingPromises := lp'\<rparr>"
    using Cons.IH by blast
  have "fold preload_step (i # is) s = s\<lparr>loadingPromises := lp'\<rparr>"
    using a b by simp
  then show ?case by blast
qed

text \<open>
  \<^verbatim>\<open>updatePreloadQueue\<close> touches the two maps only: the cache is the old cache without
  the evicted entries (nothing is stored before a preload settles), and URLs are added to
  \<^verbatim>\<open>loadingPromises\<close>.
\<close>

lemma updatePreloadQueue_shape:
  "\<exists>lp. updatePreloadQueue s =
     s\<lparr>preloadedVideos := filter (\<lambda>(url, video). \<not> evicts s url) (preloadedVideos s),
       loadingPromises := lp\<rparr>"
proof -
  obtain lp where
    "fold preload_step [1 ..< Suc (preloadBufferSize (config s))] (cleanupPreloadQueue s)
      = (cleanupPreloadQueue s)\<lparr>loadingPromises := lp\<rparr>"
    using fold_preload_step_shape by blast
  then show ?thesis
    by (auto simp: updatePreloadQueue_def cleanupPreloadQueue_def)
qed

lemma updatePreloadQueue_frame:
  "activeVideoElement (updatePreloadQueue s) = activeVideoElement s \<and>
   inactiveVideoElement (updatePreloadQueue s) = inactiveVideoElement s \<and>
   currentIndex (updatePreloadQueue s) = currentIndex s \<and>
   videoUrls (updatePreloadQueue s) = videoUrls s \<and>
   config (updatePreloadQueue s) = config s \<and>
   errorCount (updatePreloadQueue s) = errorCount s \<and>
   pendingRetries (updatePreloadQueue s) = pendingRetries s \<and>
   isTransitioning (updatePreloadQueue s) = isTransitioning s"
proof -
  obtain lp where "updatePreloadQueue s =
     s\<lparr>preloadedVideos := filter (\<lambda>(url, video). \<not> evicts s url) (preloadedVideos s),
       loadingPromises := lp\<rparr>"
    using updatePreloadQueue_shape by blast
  then show ?thesis by simp
qed

text \<open>
  Inside the \<^verbatim>\<open>catch\<close> block of \<^verbatim>\<open>playVideo\<close> the transition flag is still set
  (\<^verbatim>\<open>finally\<close> has not run), so the \<^verbatim>\<open>playNext()\<close> of \<^verbatim>\<open>handleVideoError\<close> meets the
  guard of \<^verbatim>\<open>playVideo\<close> and is rejected.
\<close>

lemma handleVideoError_busy:
  "isTransitioning s \<Longrightarrow> handleVideoError v s =
     (if errorCount s + 1 > maxErrors
      then s\<lparr>errorCount := errorCount s + 1, emitted := emitted s @ [VideoError v]\<rparr>
      else s\<lparr>errorCount := errorCount s + 1, emitted := emitted s @ [VideoError v],
             pendingRetries := pendingRetries s @ [retryDelay (config s)]\<rparr>)"
  by (simp add: handleVideoError_def emit_event_def playVideo_begin_def Let_def)


lemma handleVideoError_errorCount: "errorCount (handleVideoError v s) = errorCount s + 1"
  by (simp add: handleVideoError_def emit_event_def playVideo_begin_def Let_def)

lemma handleVideoError_slots: "same_slots s (handleVideoError v s)"
  by (simp add: same_slots_def handleVideoError_def emit_event_def playVideo_begin_def Let_def)

lemma crossfade_frame:
  "crossfade play s = Inr s' \<Longrightarrow>
     swapped_slots s s' \<and> currentIndex s' = currentIndex s \<and> videoUrls s' = videoUrls s \<and>
     errorCount s' = errorCount s \<and> pendingRetries s' = pendingRetries s"
  by (auto simp: swapped_slots_def crossfade_def crossfade_complete_def emit_event_def
           split: play_result.splits)

lemma playVideo_resume_cases:
  "playVideo_resume load play s = (outcome, s') \<Longrightarrow>
     (outcome = Played \<and>
        (\<exists>s2. load = CanPlay \<and> crossfade play s = Inr s2 \<and>
              s' = (updatePreloadQueue s2)\<lparr>isTransitioning := False\<rparr>))
   \<or> (outcome = Failed \<and>
        s' = (handleVideoError (inactiveVideoElement s) s)\<lparr>isTransitioning := False\<rparr>)"
  by (auto simp: playVideo_resume_def Let_def split: if_splits sum.splits)

lemma playVideo_cases:
  "playVideo load play s index = (outcome, s') \<Longrightarrow>
     (outcome = Rejected \<and> s' = s \<and> (isTransitioning s \<or> videoUrls s = []))
   \<or> (\<not> isTransitioning s \<and> videoUrls s \<noteq> [] \<and>
       playVideo_resume load play
         (s\<lparr>isTransitioning := True,
            currentIndex := js_rem index (int (length (videoUrls s)))\<rparr>) = (outcome, s'))"
  by (auto simp: playVideo_def playVideo_begin_def split: if_splits)

text \<open>
  Whenever the guard lets a call through, the cursor it leaves is the JavaScript remainder
  of the index, on success and on failure alike; for an index that is not negative this
  is the mathematical residue.
\<close>

lemma playVideo_cursor:
  "playVideo load play s index = (outcome, s') \<Longrightarrow> outcome \<noteq> Rejected \<Longrightarrow>
     currentIndex s' = js_rem index (int (length (videoUrls s)))"
  by (auto dest!: playVideo_cases playVideo_resume_cases crossfade_frame
           simp: handleVideoError_busy updatePreloadQueue_frame)

lemma playVideo_cursor_nonneg:
  "playVideo load play s index = (outcome, s') \<Longrightarrow> outcome \<noteq> Rejected \<Longrightarrow> 0 \<le> index \<Longrightarrow>
     currentIndex s' = index mod int (length (videoUrls s))"
  by (simp add: playVideo_cursor js_rem_nonneg)

lemma playVideo_slots:
  "playVideo load play s index = (outcome, s') \<Longrightarrow>
     (if outcome = Played then swapped_slots s s' else same_slots s s')"
  using handleVideoError_slots
  by (auto dest!: playVideo_cases playVideo_resume_cases crossfade_frame
           simp: updatePreloadQueue_frame same_slots_def swapped_slots_def)

lemma playVideo_errorCount:
  "playVideo load play s index = (outcome, s') \<Longrightarrow> errorCount s \<le> errorCount s'"
  by (auto dest!: playVideo_cases playVideo_resume_cases crossfade_frame
           simp: handleVideoError_errorCount updatePreloadQueue_frame)

section \<open>Cursor normalisation in playVideo\<close>

text \<open>
  For a negative index that is not a multiple of the playlist length, every call that
  passes the guard leaves a negative cursor.
\<close>

lemma js_rem_negative: "a < 0 \<Longrightarrow> \<not> b dvd a \<Longrightarrow> js_rem a b < 0"
proof -
  assume a: "a < 0" and b: "\<not> b dvd a"
  have "\<bar>a\<bar> mod \<bar>b\<bar> \<noteq> 0"
    using b by (simp add: dvd_eq_mod_eq_0 [symmetric])
  moreover have "0 \<le> \<bar>a\<bar> mod \<bar>b\<bar>"
    by (cases "b = 0") simp_all
  ultimately have "0 < \<bar>a\<bar> mod \<bar>b\<bar>"
    by linarith
  then show ?thesis
    using a by (simp add: js_rem_def mult_neg_pos)
qed

lemma playVideo_negative_cursor:
  "playVideo load play s index = (outcome, s') \<Longrightarrow> outcome \<noteq> Rejected \<Longrightarrow>
   index < 0 \<Longrightarrow> \<not> int (length (videoUrls s)) dvd index \<Longrightarrow> currentIndex s' < 0"
  by (simp add: playVideo_cursor js_rem_negative)

text \<open>
  C1. The claim: for every integer \<open>i\<close>, a successful \<^verbatim>\<open>playVideo(i)\<close> leaves the cursor at
  \<open>i mod length\<close> under the mathematical modulo, so in \<open>[0, length)\<close> also for negative
  \<open>i\<close>. The code computes \<^verbatim>\<open>index % this.videoUrls.length\<close>, whose sign follows the
  index: on a playlist of three clips a successful \<^verbatim>\<open>playVideo(-1)\<close> leaves the cursor at
  \<open>-1\<close>, where the claim asks for \<open>2\<close>. \<^verbatim>\<open>playPrevious\<close> adds the length before it takes
  the remainder; \<^verbatim>\<open>playVideo\<close> does not.
\<close>

theorem playVideo_negative_index_keeps_sign:
  "fst (playVideo CanPlay PlayStarted demo_state (- 1)) = Played \<and>
   currentIndex (snd (playVideo CanPlay PlayStarted demo_state (- 1))) = - 1 \<and>
   (- 1) mod int (length (videoUrls demo_state)) = 2 \<and>
   at (videoUrls demo_state) (currentIndex (snd (playVideo CanPlay PlayStarted demo_state (- 1)))) = None"
  by (simp add: demo_defs playback_defs Let_def upt_conv_Cons)

section \<open>The cursor after a failed playVideo\<close>




section \<open>The preload window\<close>

lemma indexOf_from_nth:
  "distinct xs \<Longrightarrow> i < length xs \<Longrightarrow> indexOf_from xs (xs ! i) k = k + int i"
proof (induction xs arbitrary: i k)
  case Nil
  then show ?case by simp
next
  case (Cons x xs)
  show ?case
  proof (cases i)
    case 0
    then show ?thesis by simp
  next
    case (Suc j)
    with Cons.prems have "x \<noteq> xs ! j" "distinct xs" "j < length xs"
      by auto
    with Cons.IH [of j "k + 1"] Suc show ?thesis by auto
  qed
qed

lemma indexOf_from_lower: "0 \<le> k \<Longrightarrow> - 1 \<le> indexOf_from xs u k"
  by (induction xs arbitrary: k) auto

lemma indexOf_lower: "- 1 \<le> indexOf xs u"
  by (cases u) (simp_all add: indexOf_from_lower)

lemma distance_updatePreloadQueue: "distance (updatePreloadQueue s) u = distance s u"
  by (simp add: distance_def updatePreloadQueue_frame)

lemma distance_of_current:
  assumes "distinct (videoUrls s)" "0 \<le> currentIndex s"
    "currentIndex s < int (length (videoUrls s))"
  shows "distance s (at (videoUrls s) (currentIndex s)) = 0"
proof -
  have "indexOf (videoUrls s) (at (videoUrls s) (currentIndex s)) = currentIndex s"
    using assms by (simp add: at_def indexOf_from_nth)
  then show ?thesis
    by (simp add: distance_def js_rem_def)
qed

lemma distance_is_residue:
  assumes "currentIndex s < int (length (videoUrls s))"
  shows "distance s u =
    (indexOf (videoUrls s) u - currentIndex s + int (length (videoUrls s)))
      mod int (length (videoUrls s))"
proof -
  have "0 \<le> indexOf (videoUrls s) u - currentIndex s + int (length (videoUrls s))"
    using assms indexOf_lower [of "videoUrls s" u] by linarith
  then show ?thesis
    by (simp add: distance_def js_rem_nonneg)
qed

text \<open>
  C3, as stated: after \<^verbatim>\<open>updatePreloadQueue()\<close> no cache entry has a wrapped forward
  distance \<open>(entryIndex - currentIndex + length) mod length\<close> above \<^verbatim>\<open>preloadBufferSize\<close>.
  The eviction test has a second condition, \<^verbatim>\<open>url !== currentUrl\<close>: the entry of the
  clip under the cursor is never evicted. On a playlist that lists a clip at positions 0
  and 1, with the cursor at 1 and a buffer of 1, \<^verbatim>\<open>indexOf\<close> finds the clip at 0, the
  distance is \<open>(0 - 1 + 5) mod 5 = 4\<close>, and the entry stays.
\<close>

theorem updatePreloadQueue_keeps_entry_of_current_url:
  "(Some ''https://cdn.example/a.mp4'', 4) \<in> set (preloadedVideos (updatePreloadQueue repeat_state)) \<and>
   indexOf (videoUrls repeat_state) (Some ''https://cdn.example/a.mp4'') = 0 \<and>
   currentIndex (updatePreloadQueue repeat_state) = 1 \<and>
   wrapped_forward_distance (updatePreloadQueue repeat_state) (Some ''https://cdn.example/a.mp4'') = 4 \<and>
   preloadBufferSize (config (updatePreloadQueue repeat_state)) = 1"
  by (simp add: demo_defs playback_defs wrapped_forward_distance_def Let_def upt_conv_Cons)

text \<open>
  C3, amended: \<^verbatim>\<open>updatePreloadQueue()\<close> never evicts the cache entry of the URL under
  the cursor. With the cursor at a position of the playlist, the cache after the call
  holds exactly the entries it held before that are keyed by the URL under the cursor or
  have a wrapped forward distance \<open>(entryIndex - currentIndex + length) mod length\<close> of at
  most \<^verbatim>\<open>preloadBufferSize\<close>; every other entry is evicted. When in addition the URLs of
  the playlist are pairwise distinct, no entry of the cache after the call has a distance
  above \<^verbatim>\<open>preloadBufferSize\<close>.
\<close>

theorem updatePreloadQueue_window:
  "((at (videoUrls s) (currentIndex s), v) \<in> set (preloadedVideos s)
      \<longrightarrow> (at (videoUrls s) (currentIndex s), v) \<in> set (preloadedVideos (updatePreloadQueue s))) \<and>
   (0 \<le> currentIndex s \<and> currentIndex s < int (length (videoUrls s))
      \<longrightarrow> ((u, w) \<in> set (preloadedVideos (updatePreloadQueue s)))
           = ((u, w) \<in> set (preloadedVideos s) \<and>
              (u = at (videoUrls s) (currentIndex s) \<or>
               wrapped_forward_distance s u \<le> int (preloadBufferSize (config s))))) \<and>
   (0 \<le> currentIndex s \<and> currentIndex s < int (length (videoUrls s)) \<and>
    distinct (videoUrls s) \<and> (u, w) \<in> set (preloadedVideos (updatePreloadQueue s))
      \<longrightarrow> wrapped_forward_distance (updatePreloadQueue s) u
            \<le> int (preloadBufferSize (config (updatePreloadQueue s))))"
proof -
  have cache: "set (preloadedVideos (updatePreloadQueue s))
      = {(x, y). (x, y) \<in> set (preloadedVideos s) \<and> \<not> evicts s x}"
  proof -
    obtain lp where "updatePreloadQueue s =
       s\<lparr>preloadedVideos := filter (\<lambda>(url, video). \<not> evicts s url) (preloadedVideos s),
         loadingPromises := lp\<rparr>"
      using updatePreloadQueue_shape by blast
    then show ?thesis by auto
  qed
  have current: "\<not> evicts s (at (videoUrls s) (currentIndex s))"
    by (simp add: evicts_def)
  have first: "(at (videoUrls s) (currentIndex s), v) \<in> set (preloadedVideos s)
      \<longrightarrow> (at (videoUrls s) (currentIndex s), v) \<in> set (preloadedVideos (updatePreloadQueue s))"
    using cache current by simp
  have ev: "evicts s x = (wrapped_forward_distance s x > int (preloadBufferSize (config s))
                          \<and> x \<noteq> at (videoUrls s) (currentIndex s))"
    if r: "0 \<le> currentIndex s" "currentIndex s < int (length (videoUrls s))" for x
  proof -
    have "videoUrls s \<noteq> []"
      using r by auto
    moreover have "distance s x = wrapped_forward_distance s x"
      using distance_is_residue [OF r(2)] by (simp add: wrapped_forward_distance_def)
    ultimately show ?thesis
      by (simp add: evicts_def)
  qed
  have second: "0 \<le> currentIndex s \<and> currentIndex s < int (length (videoUrls s))
      \<longrightarrow> ((u, w) \<in> set (preloadedVideos (updatePreloadQueue s)))
           = ((u, w) \<in> set (preloadedVideos s) \<and>
              (u = at (videoUrls s) (currentIndex s) \<or>
               wrapped_forward_distance s u \<le> int (preloadBufferSize (config s))))"
    using cache ev [of u] by auto
  have zero: "wrapped_forward_distance s (at (videoUrls s) (currentIndex s)) = 0"
    if r: "0 \<le> currentIndex s" "currentIndex s < int (length (videoUrls s))"
      and d: "distinct (videoUrls s)"
  proof -
    have "distance s (at (videoUrls s) (currentIndex s)) = 0"
      using distance_of_current [OF d r] .
    then show ?thesis
      using distance_is_residue [OF r(2)] by (simp add: wrapped_forward_distance_def)
  qed
  have same: "wrapped_forward_distance (updatePreloadQueue s) u = wrapped_forward_distance s u"
    by (simp add: wrapped_forward_distance_def updatePreloadQueue_frame)
  have third: "0 \<le> currentIndex s \<and> currentIndex s < int (length (videoUrls s)) \<and>
      distinct (videoUrls s) \<and> (u, w) \<in> set (preloadedVideos (updatePreloadQueue s))
      \<longrightarrow> wrapped_forward_distance (updatePreloadQueue s) u
            \<le> int (preloadBufferSize (config (updatePreloadQueue s)))"
    using second zero same by (auto simp: updatePreloadQueue_frame)
  show ?thesis
    using first second third by blast
qed

theorem updatePreloadQueue_window_witness:
  "0 \<le> currentIndex window_state \<and>
   currentIndex window_state < int (length (videoUrls window_state)) \<and>
   distinct (videoUrls window_state) \<and>
   preloadBufferSize (config window_state) = 1 \<and>
   wrapped_forward_distance window_state (Some ''https://cdn.example/b.mp4'') = 1 \<and>
   wrapped_forward_distance window_state (Some ''https://cdn.example/c.mp4'') = 2 \<and>
   (Some ''https://cdn.example/a.mp4'', 4) \<in> set (preloadedVideos (updatePreloadQueue window_state)) \<and>
   (Some ''https://cdn.example/b.mp4'', 4) \<in> set (preloadedVideos (updatePreloadQueue window_state)) \<and>
   (Some ''https://cdn.example/c.mp4'', 4) \<notin> set (preloadedVideos (updatePreloadQueue window_state))"
proof -
  have r: "0 \<le> currentIndex window_state \<and>
      currentIndex window_state < int (length (videoUrls window_state))"
    by (simp add: demo_defs)
  have d: "distinct (videoUrls window_state)"
    by (simp add: demo_defs)
  have b: "preloadBufferSize (config window_state) = 1"
    by (simp add: demo_defs)
  have cur: "at (videoUrls window_state) (currentIndex window_state)
      = Some ''https://cdn.example/a.mp4''"
    by (simp add: demo_defs at_def)
  have db: "wrapped_forward_distance window_state (Some ''https://cdn.example/b.mp4'') = 1"
    by (simp add: demo_defs wrapped_forward_distance_def)
  have dc: "wrapped_forward_distance window_state (Some ''https://cdn.example/c.mp4'') = 2"
    by (simp add: demo_defs wrapped_forward_distance_def)
  have before: "preloadedVideos window_state
      = [(Some ''https://cdn.example/a.mp4'', 4), (Some ''https://cdn.example/b.mp4'', 4),
         (Some ''https://cdn.example/c.mp4'', 4)]"
    by (simp add: demo_defs)
  have ka: "(Some ''https://cdn.example/a.mp4'', 4)
      \<in> set (preloadedVideos (updatePreloadQueue window_state))"
    using updatePreloadQueue_window [of window_state 4] cur before by simp
  have kb: "(Some ''https://cdn.example/b.mp4'', 4)
      \<in> set (preloadedVideos (updatePreloadQueue window_state))"
    using updatePreloadQueue_window
      [where s = window_state and u = "Some ''https://cdn.example/b.mp4''" and w = 4]
      r b db before
    by simp
  have kc: "(Some ''https://cdn.example/c.mp4'', 4)
      \<notin> set (preloadedVideos (updatePreloadQueue window_state))"
    using updatePreloadQueue_window
      [where s = window_state and u = "Some ''https://cdn.example/c.mp4''" and w = 4]
      r b dc cur
    by simp
  show ?thesis
    using r d b db dc ka kb kc by simp
qed

section \<open>The error counter and the forced skip\<close>

lemma handleVideoError_skips_when_idle:
  "maxErrors < errorCount s + 1 \<Longrightarrow> \<not> isTransitioning s \<Longrightarrow> videoUrls s \<noteq> [] \<Longrightarrow>
     handleVideoError v s =
       s\<lparr>errorCount := errorCount s + 1, emitted := emitted s @ [VideoError v],
         isTransitioning := True,
         currentIndex := js_rem (nextIndex s) (int (length (videoUrls s)))\<rparr>"
  by (simp add: handleVideoError_def emit_event_def playVideo_begin_def nextIndex_def Let_def)

lemma retryTimer_fires_while_transitioning:
  "isTransitioning s \<Longrightarrow>
     retryTimer_fires load play s = s\<lparr>pendingRetries := tl (pendingRetries s)\<rparr>"
  by (cases "pendingRetries s") (simp_all add: retryTimer_fires_def)

lemma errorCount_monotone:
  "errorCount s \<le> errorCount (snd (playVideo load play s index)) \<and>
   errorCount s \<le> errorCount (handleVideoError v s) \<and>
   errorCount s \<le> errorCount (updatePreloadQueue s) \<and>
   errorCount s \<le> errorCount (preloadVideo_resume u r s) \<and>
   errorCount s \<le> errorCount (destroy s)"
  using playVideo_errorCount [of load play s index]
  by (cases "playVideo load play s index")
     (auto simp: handleVideoError_errorCount updatePreloadQueue_frame preloadVideo_resume_def
        destroy_def split: option.splits)

text \<open>
  When a load fails with the counter already at the ceiling or above, \<^verbatim>\<open>playVideo\<close> ends
  with the cursor on the clip that failed and with no retry scheduled: the
  \<^verbatim>\<open>playNext()\<close> of \<^verbatim>\<open>handleVideoError\<close> was rejected by the guard, and the
  \<^verbatim>\<open>setTimeout\<close> branch was not taken.
\<close>

lemma playVideo_failed_over_ceiling:
  "playVideo load play s index = (Failed, s') \<Longrightarrow> maxErrors \<le> errorCount s \<Longrightarrow>
     currentIndex s' = js_rem index (int (length (videoUrls s))) \<and>
     pendingRetries s' = pendingRetries s \<and> errorCount s' = errorCount s + 1 \<and>
     \<not> isTransitioning s'"
  by (auto dest!: playVideo_cases playVideo_resume_cases simp: handleVideoError_busy)

text \<open>
  C4. The claim: the counter grows by one with every \<^verbatim>\<open>handleVideoError\<close> and never
  shrinks; above the ceiling of 10 \<^verbatim>\<open>handleVideoError\<close> forces advancement through
  \<^verbatim>\<open>playNext()\<close> at once; at or below it a retry of the current index is scheduled after
  \<^verbatim>\<open>retryDelay\<close> and runs only when no transition is in progress. The counter and the
  retry behave as claimed (lemmas above). The advancement does not happen where
  \<^verbatim>\<open>handleVideoError\<close> is called from, the \<^verbatim>\<open>catch\<close> block of \<^verbatim>\<open>playVideo\<close>: with ten
  failures counted, an eleventh failing load of clip 1 calls \<^verbatim>\<open>playNext()\<close>, the guard
  rejects it because \<^verbatim>\<open>isTransitioning\<close> is cleared only in \<^verbatim>\<open>finally\<close>, and the call
  settles with the cursor still at 1 (the next index is 2) and nothing scheduled.
\<close>

theorem forced_skip_rejected_after_failed_load:
  "fst (playVideo LoadErrorEvent PlayStarted (demo_state\<lparr>errorCount := 10\<rparr>) 1) = Failed \<and>
   errorCount (snd (playVideo LoadErrorEvent PlayStarted (demo_state\<lparr>errorCount := 10\<rparr>) 1)) = 11 \<and>
   currentIndex (snd (playVideo LoadErrorEvent PlayStarted (demo_state\<lparr>errorCount := 10\<rparr>) 1)) = 1 \<and>
   nextIndex (demo_state\<lparr>errorCount := 10, currentIndex := 1\<rparr>) = 2 \<and>
   pendingRetries (snd (playVideo LoadErrorEvent PlayStarted (demo_state\<lparr>errorCount := 10\<rparr>) 1)) = [] \<and>
   \<not> isTransitioning (snd (playVideo LoadErrorEvent PlayStarted (demo_state\<lparr>errorCount := 10\<rparr>) 1))"
  by (simp add: demo_defs playback_defs Let_def)

section \<open>The playlist after initialize\<close>

lemma swap_mset: "i < length xs \<Longrightarrow> j < length xs \<Longrightarrow> mset (swap i j xs) = mset xs"
  unfolding swap_def by (simp add: mset_swap)

lemma swap_length: "length (swap i j xs) = length xs"
  by (simp add: swap_def)

lemma shuffle_loop_mset:
  "\<forall>k. rnd k \<le> k \<Longrightarrow> i < length xs \<Longrightarrow> mset (shuffle_loop rnd i xs) = mset xs"
proof (induction i arbitrary: xs)
  case 0
  then show ?case by simp
next
  case (Suc i)
  have j: "rnd (Suc i) < length xs"
    using Suc.prems by (meson le_less_trans)
  have "mset (shuffle_loop rnd i (swap (Suc i) (rnd (Suc i)) xs))
      = mset (swap (Suc i) (rnd (Suc i)) xs)"
    using Suc.prems by (intro Suc.IH) (simp_all add: swap_length)
  then show ?case
    using Suc.prems j by (simp add: swap_mset)
qed

lemma shuffle_mset: "\<forall>k. rnd k \<le> k \<Longrightarrow> mset (shuffle rnd xs) = mset xs"
  by (cases "xs = []") (simp_all add: shuffle_def shuffle_loop_mset)

text \<open>
  C5. For a non-empty input list whose entries are all URLs (each passes the validation of
  \<^verbatim>\<open>setVideoUrls\<close>), and a random source within its range, \<^verbatim>\<open>initialize\<close> succeeds and
  the stored playlist is a permutation of the input: the same multiset of URLs, so every
  input URL occurs in the playlist as often as in the input (once, when the input has no
  repetition), and the same length.
\<close>

theorem initialize_playlist_is_permutation:
  assumes "urls \<noteq> []"
    and "\<forall>u \<in> set urls. acceptsUrl parses u"
    and "\<forall>i. rnd i \<le> i"
  shows "\<exists>s'. initialize parses rnd s videoA videoB urls = Inr s' \<and>
              mset (videoUrls s') = mset urls \<and>
              length (videoUrls s') = length urls \<and>
              (distinct urls \<longrightarrow> distinct (videoUrls s'))"
proof -
  have keep: "filter (acceptsUrl parses) urls = urls"
    using assms(2) by (simp add: filter_id_conv)
  have m: "mset (shuffle rnd urls) = mset urls"
    using assms(3) by (rule shuffle_mset)
  have l: "length (shuffle rnd urls) = length urls"
    using m by (metis size_mset)
  have d: "distinct urls \<longrightarrow> distinct (shuffle rnd urls)"
    using m by (metis mset_eq_imp_distinct_iff)
  show ?thesis
    using assms(1) keep m l d by (simp add: initialize_def setVideoUrls_def Let_def)
qed

theorem initialize_playlist_is_permutation_witness:
  "demo_playlist \<noteq> [] \<and> list_all (acceptsUrl parses_https) demo_playlist \<and>
   initialize parses_https (\<lambda>i. i div 2) (constructor (default_config False) VideoA VideoB)
       VideoA VideoB demo_playlist
     = Inr ((constructor (default_config False) VideoA VideoB)
              \<lparr>videoUrls := [''https://cdn.example/c.mp4'', ''https://cdn.example/a.mp4'',
                             ''https://cdn.example/b.mp4'']\<rparr>) \<and>
   mset [''https://cdn.example/c.mp4'', ''https://cdn.example/a.mp4'',
         ''https://cdn.example/b.mp4''] = mset demo_playlist"
proof -
  have h1: "demo_playlist \<noteq> []"
    by (simp add: demo_playlist_def)
  have h2: "\<forall>u \<in> set demo_playlist. acceptsUrl parses_https u"
    by (simp add: demo_playlist_def acceptsUrl_def parses_https_def blank_def js_whitespace_def)
  have h3: "\<forall>i. (\<lambda>i::nat. i div 2) i \<le> i"
    by simp
  have run: "initialize parses_https (\<lambda>i. i div 2)
       (constructor (default_config False) VideoA VideoB) VideoA VideoB demo_playlist
     = Inr ((constructor (default_config False) VideoA VideoB)
              \<lparr>videoUrls := [''https://cdn.example/c.mp4'', ''https://cdn.example/a.mp4'',
                             ''https://cdn.example/b.mp4'']\<rparr>)"
    by (simp add: initialize_def setVideoUrls_def demo_defs acceptsUrl_def parses_https_def
          blank_def js_whitespace_def shuffle_def swap_def numeral_2_eq_2 Let_def)
  from initialize_playlist_is_permutation [OF h1 h2 h3,
      of "constructor (default_config False) VideoA VideoB" VideoA VideoB]
  show ?thesis
    using h1 h2 h3 run by (auto simp: list_all_iff)
qed


section \<open>Commands issued during a transition\<close>

text \<open>
  C6. In every state with \<^verbatim>\<open>isTransitioning\<close> set, \<^verbatim>\<open>playNext()\<close> and
  \<^verbatim>\<open>playPrevious()\<close> are rejected by the guard of \<^verbatim>\<open>playVideo\<close> and leave the state as
  it was: the cursor and the assignment of the active and inactive element are unchanged,
  and nothing is queued.
\<close>

theorem playNext_playPrevious_dropped_while_transitioning:
  assumes "isTransitioning s"
  shows "playNext load play s = (Rejected, s) \<and> playPrevious load play s = (Rejected, s) \<and>
         currentIndex (snd (playNext load play s)) = currentIndex s \<and>
         same_slots s (snd (playNext load play s)) \<and>
         currentIndex (snd (playPrevious load play s)) = currentIndex s \<and>
         same_slots s (snd (playPrevious load play s))"
  using assms
  by (simp add: playNext_def playPrevious_def playVideo_def playVideo_begin_def same_slots_def)

theorem playNext_playPrevious_dropped_while_transitioning_witness:
  "isTransitioning busy_state \<and>
   playNext CanPlay PlayStarted busy_state = (Rejected, busy_state) \<and>
   playPrevious CanPlay PlayStarted busy_state = (Rejected, busy_state) \<and>
   currentIndex (snd (playNext CanPlay PlayStarted busy_state)) = 0"
proof -
  have h: "isTransitioning busy_state"
    by (simp add: demo_defs)
  have c: "currentIndex busy_state = 0"
    by (simp add: demo_defs)
  show ?thesis
    using playNext_playPrevious_dropped_while_transitioning [OF h, of CanPlay PlayStarted] h c
    by simp
qed

section \<open>The swap of the active and the inactive element\<close>

text \<open>
  C7. After every successful \<^verbatim>\<open>playVideo\<close> the element that was inactive is active and
  the one that was active is inactive. The swap is made by the completion step of
  \<^verbatim>\<open>crossfade()\<close> and nowhere else: a call of \<^verbatim>\<open>playVideo\<close> that is rejected or fails,
  the start of a call, \<^verbatim>\<open>handleVideoError\<close>, \<^verbatim>\<open>updatePreloadQueue\<close>,
  \<^verbatim>\<open>cleanupPreloadQueue\<close>, both halves of \<^verbatim>\<open>preloadVideo\<close>, \<^verbatim>\<open>emit\<close>, \<^verbatim>\<open>destroy\<close> and
  \<^verbatim>\<open>setVideoUrls\<close> all leave the assignment as it is. (\<^verbatim>\<open>initialize\<close> assigns both
  references once, when the manager is set up.)
\<close>

theorem slots_swap_exactly_at_crossfade:
  "(playVideo load play s index = (Played, s1) \<longrightarrow> swapped_slots s s1) \<and>
   (playVideo load play s index = (outcome, s2) \<and> outcome \<noteq> Played \<longrightarrow> same_slots s s2) \<and>
   (crossfade play s = Inr s3 \<longrightarrow> swapped_slots s s3) \<and>
   swapped_slots s (crossfade_complete s) \<and>
   (playVideo_begin s index = Inr s4 \<longrightarrow> same_slots s s4) \<and>
   same_slots s (handleVideoError v s) \<and>
   same_slots s (updatePreloadQueue s) \<and>
   same_slots s (cleanupPreloadQueue s) \<and>
   same_slots s (preloadVideo_begin u s) \<and>
   same_slots s (preloadVideo_resume u r s) \<and>
   same_slots s (emit_event e s) \<and>
   same_slots s (destroy s) \<and>
   (setVideoUrls parses rnd s urls = Inr s5 \<longrightarrow> same_slots s s5)"
proof -
  have a: "playVideo load play s index = (Played, s1) \<longrightarrow> swapped_slots s s1"
    using playVideo_slots [of load play s index Played s1] by simp
  have b: "playVideo load play s index = (outcome, s2) \<and> outcome \<noteq> Played \<longrightarrow> same_slots s s2"
    using playVideo_slots [of load play s index outcome s2] by auto
  have c: "crossfade play s = Inr s3 \<longrightarrow> swapped_slots s s3"
    using crossfade_frame by blast
  have d: "swapped_slots s (crossfade_complete s)"
    by (simp add: swapped_slots_def crossfade_complete_def)
  have e: "playVideo_begin s index = Inr s4 \<longrightarrow> same_slots s s4"
    by (auto simp: playVideo_begin_def same_slots_def split: if_splits)
  have f: "same_slots s (updatePreloadQueue s)"
    by (simp add: same_slots_def updatePreloadQueue_frame)
  have g: "same_slots s (cleanupPreloadQueue s) \<and> same_slots s (preloadVideo_begin u s) \<and>
      same_slots s (preloadVideo_resume u r s) \<and> same_slots s (emit_event e s) \<and>
      same_slots s (destroy s)"
    by (simp add: same_slots_def cleanupPreloadQueue_def preloadVideo_begin_def
          preloadVideo_resume_def emit_event_def destroy_def split: option.splits)
  have h: "setVideoUrls parses rnd s urls = Inr s5 \<longrightarrow> same_slots s s5"
    by (auto simp: setVideoUrls_def same_slots_def Let_def split: if_splits)
  show ?thesis
    using a b c d e f g h handleVideoError_slots [of s v] by blast
qed

theorem slots_swap_exactly_at_crossfade_witness:
  "playVideo CanPlay PlayStarted demo_state 1
     = (Played, snd (playVideo CanPlay PlayStarted demo_state 1)) \<and>
   activeVideoElement demo_state = VideoA \<and> inactiveVideoElement demo_state = VideoB \<and>
   activeVideoElement (snd (playVideo CanPlay PlayStarted demo_state 1)) = VideoB \<and>
   inactiveVideoElement (snd (playVideo CanPlay PlayStarted demo_state 1)) = VideoA \<and>
   playVideo LoadTimeout PlayStarted demo_state 1
     = (Failed, snd (playVideo LoadTimeout PlayStarted demo_state 1)) \<and>
   activeVideoElement (snd (playVideo LoadTimeout PlayStarted demo_state 1)) = VideoA"
proof -
  have p: "fst (playVideo CanPlay PlayStarted demo_state 1) = Played"
    by (simp add: demo_defs playback_defs Let_def upt_conv_Cons)
  have h1: "playVideo CanPlay PlayStarted demo_state 1
      = (Played, snd (playVideo CanPlay PlayStarted demo_state 1))"
    using p by (metis prod.collapse)
  have q: "fst (playVideo LoadTimeout PlayStarted demo_state 1) = Failed"
    by (simp add: demo_defs playback_defs Let_def)
  have h2: "playVideo LoadTimeout PlayStarted demo_state 1
      = (Failed, snd (playVideo LoadTimeout PlayStarted demo_state 1))"
    using q by (metis prod.collapse)
  have slots: "activeVideoElement demo_state = VideoA \<and> inactiveVideoElement demo_state = VideoB"
    by (simp add: demo_defs)
  have sw: "swapped_slots demo_state (snd (playVideo CanPlay PlayStarted demo_state 1))"
    using slots_swap_exactly_at_crossfade
      [where load = CanPlay and play = PlayStarted and s = demo_state and index = 1
         and ?s1.0 = "snd (playVideo CanPlay PlayStarted demo_state 1)"] h1
    by blast
  have sm: "same_slots demo_state (snd (playVideo LoadTimeout PlayStarted demo_state 1))"
    using slots_swap_exactly_at_crossfade
      [where load = LoadTimeout and play = PlayStarted and s = demo_state and index = 1
         and outcome = Failed
         and ?s2.0 = "snd (playVideo LoadTimeout PlayStarted demo_state 1)"] h2
    by simp
  show ?thesis
    using h1 h2 slots sw sm by (simp add: swapped_slots_def same_slots_def)
qed

section \<open>Validation of the playlist\<close>

text \<open>
  C8, as stated: \<^verbatim>\<open>initialize\<close> fails whenever \<^verbatim>\<open>urls\<close> is empty or any entry is not a
  valid URL. \<^verbatim>\<open>setVideoUrls\<close> filters: an entry that does not pass is dropped, and
  the call goes on with the rest. A list of one valid URL and one string that is no URL
  is accepted, with a playlist of one.
\<close>

theorem initialize_accepts_list_with_invalid_entry:
  "\<not> acceptsUrl parses_https ''not a url'' \<and>
   initialize parses_https (\<lambda>i. 0) (constructor (default_config False) VideoA VideoB)
       VideoA VideoB [''https://cdn.example/a.mp4'', ''not a url'']
     = Inr ((constructor (default_config False) VideoA VideoB)
              \<lparr>videoUrls := [''https://cdn.example/a.mp4'']\<rparr>)"
  by (simp add: initialize_def setVideoUrls_def demo_defs acceptsUrl_def parses_https_def
        blank_def js_whitespace_def shuffle_def Let_def)

text \<open>
  C8, amended: \<^verbatim>\<open>initialize\<close> fails (by throwing an error) exactly when no entry of
  \<^verbatim>\<open>urls\<close> passes the validation, which includes the empty list; when at least one entry
  passes, the entries that do not are dropped and the playlist is the shuffle of those
  that do, a permutation of them.
\<close>

theorem initialize_fails_iff_no_valid_entry:
  "(isl (initialize parses rnd s videoA videoB urls) = (\<forall>u \<in> set urls. \<not> acceptsUrl parses u)) \<and>
   (urls = [] \<longrightarrow> initialize parses rnd s videoA videoB urls = Inl InvalidVideoUrls) \<and>
   (urls \<noteq> [] \<and> (\<forall>u \<in> set urls. \<not> acceptsUrl parses u)
      \<longrightarrow> initialize parses rnd s videoA videoB urls = Inl NoValidVideoUrls) \<and>
   ((\<exists>u \<in> set urls. acceptsUrl parses u)
      \<longrightarrow> (\<exists>s'. initialize parses rnd s videoA videoB urls = Inr s' \<and>
                 videoUrls s' = shuffle rnd (filter (acceptsUrl parses) urls) \<and>
                 ((\<forall>i. rnd i \<le> i)
                    \<longrightarrow> mset (videoUrls s') = mset (filter (acceptsUrl parses) urls))))"
proof -
  have e: "(filter (acceptsUrl parses) urls = []) = (\<forall>u \<in> set urls. \<not> acceptsUrl parses u)"
    by (simp add: filter_empty_conv)
  show ?thesis
    using e by (auto simp: initialize_def setVideoUrls_def Let_def shuffle_mset)
qed

theorem initialize_fails_iff_no_valid_entry_witness:
  "\<not> acceptsUrl parses_https ''not a url'' \<and> \<not> acceptsUrl parses_https ''   '' \<and>
   acceptsUrl parses_https ''https://cdn.example/a.mp4'' \<and>
   initialize parses_https (\<lambda>i. 0) (constructor (default_config False) VideoA VideoB)
     VideoA VideoB [''not a url'', ''   ''] = Inl NoValidVideoUrls \<and>
   initialize parses_https (\<lambda>i. 0) (constructor (default_config False) VideoA VideoB)
     VideoA VideoB [] = Inl InvalidVideoUrls \<and>
   \<not> isl (initialize parses_https (\<lambda>i. 0) (constructor (default_config False) VideoA VideoB)
            VideoA VideoB [''https://cdn.example/a.mp4'', ''not a url''])"
proof -
  have h: "\<forall>u \<in> set [''not a url'', ''   '']. \<not> acceptsUrl parses_https u"
    by (simp add: acceptsUrl_def parses_https_def blank_def js_whitespace_def)
  have n: "[''not a url'', ''   ''] \<noteq> []"
    by simp
  have g: "acceptsUrl parses_https ''https://cdn.example/a.mp4''"
    by (simp add: acceptsUrl_def parses_https_def blank_def js_whitespace_def)
  have m: "\<exists>u \<in> set [''https://cdn.example/a.mp4'', ''not a url'']. acceptsUrl parses_https u"
    using g by simp
  show ?thesis
    using initialize_fails_iff_no_valid_entry
      [of parses_https "\<lambda>i. 0" "constructor (default_config False) VideoA VideoB"
          VideoA VideoB "[''not a url'', ''   '']"]
      initialize_fails_iff_no_valid_entry
      [of parses_https "\<lambda>i. 0" "constructor (default_config False) VideoA VideoB"
          VideoA VideoB "[]"]
      initialize_fails_iff_no_valid_entry
      [of parses_https "\<lambda>i. 0" "constructor (default_config False) VideoA VideoB"
          VideoA VideoB "[''https://cdn.example/a.mp4'', ''not a url'']"]
      h n g m
    by auto
qed

section \<open>Subscribers that throw\<close>






section \<open>The transition flag when playVideo settles\<close>

text \<open>
  C10, as stated: every call of \<^verbatim>\<open>playVideo\<close>, successful or failed, leaves
  \<^verbatim>\<open>isTransitioning\<close> false when it settles. A call made while a transition is in progress
  fails at the guard, before \<^verbatim>\<open>try\<close>, and settles at once with the flag still set.
\<close>

theorem playVideo_rejected_leaves_flag_set:
  "fst (playVideo CanPlay PlayStarted busy_state 1) = Rejected \<and>
   isTransitioning (snd (playVideo CanPlay PlayStarted busy_state 1))"
  by (simp add: demo_defs playVideo_def playVideo_begin_def)

text \<open>
  C10, amended: a call of \<^verbatim>\<open>playVideo\<close> is rejected by the guard exactly when a
  transition is in progress or the playlist is empty, and a rejected call leaves the
  state, and so the flag, as it found it. Every call that passes the guard leaves
  \<^verbatim>\<open>isTransitioning\<close> false when it settles, whether the load succeeded, timed out or
  failed, and whether or not \<^verbatim>\<open>crossfade\<close> failed; in particular a call made with the
  flag clear settles with the flag clear.
\<close>

theorem playVideo_settles_with_flag_clear:
  "((fst (playVideo load play s index) = Rejected) = (isTransitioning s \<or> videoUrls s = [])) \<and>
   (fst (playVideo load play s index) = Rejected \<longrightarrow> snd (playVideo load play s index) = s) \<and>
   (fst (playVideo load play s index) \<noteq> Rejected
      \<longrightarrow> \<not> isTransitioning (snd (playVideo load play s index))) \<and>
   (\<not> isTransitioning s \<longrightarrow> \<not> isTransitioning (snd (playVideo load play s index)))"
proof (cases "playVideo load play s index")
  case (Pair outcome s')
  from playVideo_cases [OF Pair] show ?thesis
  proof
    assume "outcome = Rejected \<and> s' = s \<and> (isTransitioning s \<or> videoUrls s = [])"
    then show ?thesis using Pair by auto
  next
    assume a: "\<not> isTransitioning s \<and> videoUrls s \<noteq> [] \<and>
       playVideo_resume load play
         (s\<lparr>isTransitioning := True,
            currentIndex := js_rem index (int (length (videoUrls s)))\<rparr>) = (outcome, s')"
    then have "\<not> isTransitioning s' \<and> outcome \<noteq> Rejected"
      by (auto dest!: playVideo_resume_cases)
    then show ?thesis using Pair a by simp
  qed
qed

theorem playVideo_settles_with_flag_clear_witness:
  "\<not> isTransitioning demo_state \<and> videoUrls demo_state \<noteq> [] \<and>
   fst (playVideo LoadTimeout PlayStarted demo_state 2) \<noteq> Rejected \<and>
   \<not> isTransitioning (snd (playVideo LoadTimeout PlayStarted demo_state 2)) \<and>
   fst (playVideo CanPlay PlayThrew demo_state 2) \<noteq> Rejected \<and>
   \<not> isTransitioning (snd (playVideo CanPlay PlayThrew demo_state 2)) \<and>
   isTransitioning busy_state \<and>
   playVideo LoadTimeout PlayStarted busy_state 2 = (Rejected, busy_state)"
proof -
  have h: "\<not> isTransitioning demo_state \<and> videoUrls demo_state \<noteq> []"
    by (simp add: demo_defs)
  have b: "isTransitioning busy_state"
    by (simp add: demo_defs)
  show ?thesis
    using playVideo_settles_with_flag_clear [of LoadTimeout PlayStarted demo_state 2]
      playVideo_settles_with_flag_clear [of CanPlay PlayThrew demo_state 2]
      playVideo_settles_with_flag_clear [of LoadTimeout PlayStarted busy_state 2] h b
    by (metis prod.collapse)
qed


end
